theory Spec2Isabelle
  imports Complex_Main "HOL-Library.AList" "HOL-Library.Sublist" "HOL-Library.Log_Nat"
begin

section \<open>Numbers and strings\<close>

text \<open>
  A JavaScript \<open>number\<close> is an IEEE 754 double. A finite double is modelled by the
  rational number it denotes, and the arithmetic of the code by exact arithmetic followed
  by \<open>double\<close>, which rounds a rational to the nearest double, a tie to the one with
  the even significand: \<open>a + b\<close> in the code is \<open>double (a + b)\<close> here. The sign of
  zero is not modelled, and a result of magnitude \<open>2 ^ 1024\<close> or more (an infinity in
  the code) is outside the model of finite doubles. Where \<open>NaN\<close> decides what the code
  does, a number is a \<open>js_number\<close>, defined with the script generation below.
  Counters and list lengths are natural numbers or integers. A JavaScript string is a
  \<open>string\<close> of ASCII characters.
\<close>

type_synonym number = rat

text \<open>\<open>pow2 e\<close> is \<open>2\<close> to the power \<open>e\<close>, for an exponent of either sign.\<close>

definition pow2 :: "int \<Rightarrow> rat" where
  "pow2 e = (if 0 \<le> e then 2 ^ nat e else 1 / 2 ^ nat (- e))"

text \<open>The nearest integer, a tie to the even one.\<close>

definition round_half_even :: "rat \<Rightarrow> int" where
  "round_half_even y =
     (let f = \<lfloor>y\<rfloor>; r = y - of_int f
      in if r < 1 / 2 then f
         else if 1 / 2 < r then f + 1
         else if even f then f else f + 1)"

text \<open>
  The exponent \<open>e\<close> of the last place of the double nearest to \<open>x\<close>: the one with
  \<open>2 ^ 52 \<le> \<bar>x\<bar> / 2 ^ e < 2 ^ 53\<close>, and \<open>- 1074\<close> in the subnormal range. It is
  found from the bit lengths of numerator and denominator.
\<close>

definition ulp_exponent :: "rat \<Rightarrow> int" where
  "ulp_exponent x =
     (let (p, q) = quotient_of \<bar>x\<bar>;
          k = bitlen p - bitlen q;
          l = (if pow2 k \<le> \<bar>x\<bar> then k else k - 1)
      in max (l - 52) (- 1074))"

text \<open>Rounding to the nearest double: to the nearest multiple of \<open>2 ^ e\<close>.\<close>

definition double :: "rat \<Rightarrow> rat" where
  "double x =
     (if x = 0 then 0
      else (let e = ulp_exponent x
            in of_int (round_half_even (x / pow2 e)) * pow2 e))"



text \<open>A whole number, as a double.\<close>

definition whole :: "rat \<Rightarrow> bool" where
  "whole x = (of_int \<lfloor>x\<rfloor> = x)"

subsection \<open>Whole numbers up to \<open>2 ^ 53\<close> are doubles\<close>

lemma pow2_powi: "pow2 e = 2 powi e"
  by (simp add: pow2_def power_int_def inverse_eq_divide power_one_over)

lemma pow2_pos [simp]: "0 < pow2 e"
  by (simp add: pow2_powi)

lemma pow2_nonzero [simp]: "pow2 e \<noteq> 0"
  using pow2_pos[of e] by (simp del: pow2_pos)

lemma pow2_add: "pow2 (a + b) = pow2 a * pow2 b"
  by (simp add: pow2_powi power_int_add)


lemma pow2_nat: "0 \<le> e \<Longrightarrow> pow2 e = of_int (2 ^ nat e)"
  by (simp add: pow2_def)






section \<open>Errors (src/utils/errors.ts)\<close>

datatype category = User | External | System

text \<open>The class of an \<open>AppError\<close>, as \<open>instanceof\<close> sees it.\<close>

datatype error_class =
    AppErrorC | ValidationErrorC | AuthenticationErrorC | AuthorizationErrorC
  | NotFoundErrorC | ExternalServiceErrorC | VideoProcessingErrorC
  | FileStorageErrorC | DatabaseErrorC | QueueErrorC

record app_error =
  error_class :: error_class
  message :: string
  code :: string
  category :: category
  retryable :: bool
  statusCode :: nat

text \<open>
  What a \<open>throw\<close> can carry: an \<open>AppError\<close>, any other \<open>Error\<close> (only its
  message matters), or \<open>undefined\<close>.
\<close>

datatype thrown = App app_error | OtherError string | Undefined

datatype 'a outcome = Returns 'a | Throws thrown

definition ValidationError :: "string \<Rightarrow> app_error" where
  "ValidationError msg =
     \<lparr>error_class = ValidationErrorC, message = msg, code = ''VALIDATION_ERROR'',
      category = User, retryable = False, statusCode = 400\<rparr>"

definition ExternalServiceError :: "string \<Rightarrow> string \<Rightarrow> bool \<Rightarrow> app_error" where
  "ExternalServiceError service msg retry =
     \<lparr>error_class = ExternalServiceErrorC, message = service @ '' error: '' @ msg,
      code = ''EXTERNAL_SERVICE_ERROR'', category = External, retryable = retry,
      statusCode = 502\<rparr>"

definition QueueError :: "string \<Rightarrow> app_error" where
  "QueueError msg =
     \<lparr>error_class = QueueErrorC, message = ''Queue error: '' @ msg, code = ''QUEUE_ERROR'',
      category = System, retryable = True, statusCode = 500\<rparr>"

text \<open>\<open>(error as Error).message\<close>; reading it off \<open>undefined\<close> is a TypeError.\<close>

fun message_of :: "thrown \<Rightarrow> string option" where
  "message_of (App e) = Some (message e)"
| "message_of (OtherError m) = Some m"
| "message_of Undefined = None"

text \<open>\<open>error instanceof AppError && !error.retryable\<close>\<close>

fun non_retryable :: "thrown \<Rightarrow> bool" where
  "non_retryable (App e) = (\<not> retryable e)"
| "non_retryable (OtherError m) = False"
| "non_retryable Undefined = False"

subsection \<open>ErrorHandler.retryOperation\<close>

text \<open>
  The operation is a closure that may behave differently at each call: \<open>operation k\<close>
  is the outcome of its call number \<open>k\<close> (counting from 0). A run records the outcome
  of \<open>retryOperation\<close>, how often the operation was invoked, and the arguments of the
  calls of \<open>sleep\<close> in order. \<open>maxRetries\<close> is an integer; the source gives it the
  default 3 and \<open>delay\<close> the default 1000, so a call that leaves them out is
  \<open>retryOperation operation 3 1000\<close>.
\<close>

record 'a retry_run =
  result :: "'a outcome"
  invocations :: nat
  sleeps :: "number list"

function retry_loop ::
  "(nat \<Rightarrow> 'a outcome) \<Rightarrow> int \<Rightarrow> number \<Rightarrow> int \<Rightarrow> thrown \<Rightarrow> nat \<Rightarrow> number list
     \<Rightarrow> 'a retry_run" where
  "retry_loop operation maxRetries delay attempt lastError calls slept =
     (if attempt \<le> maxRetries then
        (case operation calls of
           Returns v \<Rightarrow> \<lparr>result = Returns v, invocations = Suc calls, sleeps = slept\<rparr>
         | Throws e \<Rightarrow>
             if non_retryable e
             then \<lparr>result = Throws e, invocations = Suc calls, sleeps = slept\<rparr>
             else if attempt = maxRetries
             then \<lparr>result = Throws e, invocations = Suc calls, sleeps = slept\<rparr>
             else retry_loop operation maxRetries delay (attempt + 1) e (Suc calls)
                    (slept @ [delay * 2 ^ nat (attempt - 1)]))
      else \<lparr>result = Throws lastError, invocations = calls, sleeps = slept\<rparr>)"
  by pat_completeness auto
termination
  by (relation "measure (\<lambda>(operation, maxRetries, delay, attempt, lastError, calls, slept).
        nat (maxRetries + 1 - attempt))") auto

declare retry_loop.simps [simp del]

definition retryOperation :: "(nat \<Rightarrow> 'a outcome) \<Rightarrow> int \<Rightarrow> number \<Rightarrow> 'a retry_run" where
  "retryOperation operation maxRetries delay =
     retry_loop operation maxRetries delay 1 Undefined 0 []"

text \<open>
  An outcome that ends the loop at once: a returned value, or an \<open>AppError\<close> that is
  not retryable.
\<close>

definition stops :: "'a outcome \<Rightarrow> bool" where
  "stops out = (case out of Returns v \<Rightarrow> True | Throws e \<Rightarrow> non_retryable e)"

text \<open>The waits of a run with \<open>n\<close> invocations: after attempt \<open>a\<close>, \<open>delay * 2 ^ (a - 1)\<close>.\<close>

definition backoff :: "number \<Rightarrow> nat \<Rightarrow> number list" where
  "backoff delay n = map (\<lambda>a. delay * 2 ^ (a - 1)) [1..<n]"

definition retry_shape :: "(nat \<Rightarrow> 'a outcome) \<Rightarrow> int \<Rightarrow> number \<Rightarrow> 'a retry_run \<Rightarrow> bool" where
  "retry_shape operation maxRetries delay r =
     (int (invocations r) \<le> max 0 maxRetries
      \<and> sleeps r = backoff delay (invocations r)
      \<and> (\<forall>k. Suc k < invocations r \<longrightarrow> \<not> stops (operation k))
      \<and> (0 < invocations r \<longrightarrow> result r = operation (invocations r - 1))
      \<and> (0 < invocations r \<and> \<not> stops (operation (invocations r - 1))
             \<longrightarrow> int (invocations r) = maxRetries)
      \<and> (invocations r = 0 \<longrightarrow> maxRetries \<le> 0 \<and> result r = Throws Undefined))"

lemma retry_loop_shape:
  assumes "attempt = int calls + 1"
      and "slept = backoff delay (Suc calls)"
      and "attempt \<le> maxRetries \<or> calls = 0"
      and "\<forall>k<calls. \<not> stops (operation k)"
      and "calls = 0 \<longrightarrow> lastError = Undefined"
  shows "retry_shape operation maxRetries delay
           (retry_loop operation maxRetries delay attempt lastError calls slept)"
  using assms
proof (induction operation maxRetries delay attempt lastError calls slept
       rule: retry_loop.induct)
  case (1 operation maxRetries delay attempt lastError calls slept)
  show ?case
  proof (cases "attempt \<le> maxRetries")
    case False
    with 1(2-) show ?thesis
      by (subst retry_loop.simps) (simp add: retry_shape_def backoff_def)
  next
    case le: True
    show ?thesis
    proof (cases "operation calls")
      case (Returns v)
      with le 1(2-) show ?thesis
        by (subst retry_loop.simps)
           (auto simp: retry_shape_def stops_def less_Suc_eq)
    next
      case (Throws e)
      show ?thesis
      proof (cases "non_retryable e \<or> attempt = maxRetries")
        case True
        with Throws le 1(2-) show ?thesis
          by (subst retry_loop.simps)
             (auto simp: retry_shape_def stops_def less_Suc_eq)
      next
        case False
        then have nr: "\<not> non_retryable e" and ne: "attempt \<noteq> maxRetries"
          by auto
        have next_sleep: "slept @ [delay * 2 ^ nat (attempt - 1)] = backoff delay (Suc (Suc calls))"
          using 1(2,3) by (simp add: backoff_def)
        have "retry_shape operation maxRetries delay
                (retry_loop operation maxRetries delay (attempt + 1) e (Suc calls)
                   (slept @ [delay * 2 ^ nat (attempt - 1)]))"
        proof (rule 1(1)[OF le Throws nr ne])
          show "attempt + 1 = int (Suc calls) + 1" using 1(2) by simp
          show "slept @ [delay * 2 ^ nat (attempt - 1)] = backoff delay (Suc (Suc calls))"
            by (rule next_sleep)
          show "attempt + 1 \<le> maxRetries \<or> Suc calls = 0" using le ne by simp
          show "\<forall>k<Suc calls. \<not> stops (operation k)"
            using 1(5) Throws nr by (auto simp: stops_def less_Suc_eq)
          show "Suc calls = 0 \<longrightarrow> e = Undefined" by simp
        qed
        then show ?thesis
          using le Throws nr ne by (subst retry_loop.simps) simp
      qed
    qed
  qed
qed

lemma retryOperation_shape:
  "retry_shape operation maxRetries delay (retryOperation operation maxRetries delay)"
  unfolding retryOperation_def
  by (rule retry_loop_shape) (simp_all add: backoff_def)


text \<open>Three operations to run the policy on: one that always fails with a retryable
  error, one whose second call fails with a \<open>ValidationError\<close>, and one whose second
  call returns.\<close>

definition always_busy :: "nat \<Rightarrow> unit outcome" where
  "always_busy k = Throws (App (ExternalServiceError ''OpenAI'' ''rate limited'' True))"

definition busy_then_invalid :: "nat \<Rightarrow> unit outcome" where
  "busy_then_invalid k =
     (if k = 1 then Throws (App (ValidationError ''Topic is required''))
      else Throws (App (ExternalServiceError ''OpenAI'' ''rate limited'' True)))"

definition busy_then_done :: "nat \<Rightarrow> unit outcome" where
  "busy_then_done k =
     (if k = 0 then Throws (App (ExternalServiceError ''OpenAI'' ''rate limited'' True))
      else Returns ())"

lemma retryable_failure_iff:
  "(\<exists>e. out = Throws e \<and> \<not> non_retryable e) = (\<not> stops out)"
  by (cases out) (auto simp: stops_def)

lemma retry_run_determined:
  assumes "int k < maxRetries" and "\<forall>j<k. \<not> stops (operation j)" and "stops (operation k)"
  shows "invocations (retryOperation operation maxRetries delay) = Suc k
       \<and> result (retryOperation operation maxRetries delay) = operation k"
proof -
  let ?r = "retryOperation operation maxRetries delay"
  have sh: "retry_shape operation maxRetries delay ?r" by (rule retryOperation_shape)
  have pos: "0 < invocations ?r"
    using sh assms(1) by (cases "invocations ?r") (auto simp: retry_shape_def)
  have "\<not> Suc k < invocations ?r"
    using sh assms(3) by (auto simp: retry_shape_def)
  then have le: "invocations ?r - 1 \<le> k" by simp
  have "invocations ?r - 1 = k"
  proof (rule ccontr)
    assume "invocations ?r - 1 \<noteq> k"
    with le have lt: "invocations ?r - 1 < k" by simp
    with assms(2) have "\<not> stops (operation (invocations ?r - 1))" by simp
    with sh pos have "int (invocations ?r) = maxRetries" by (simp add: retry_shape_def)
    with lt assms(1) pos show False by simp
  qed
  with pos have "invocations ?r = Suc k" by simp
  moreover from sh pos have "result ?r = operation (invocations ?r - 1)"
    by (simp add: retry_shape_def)
  ultimately show ?thesis by simp
qed

text \<open>
  Claim C4. For every operation (every sequence of outcomes), every \<open>maxRetries\<close> and
  every \<open>delay\<close>, \<open>retryOperation\<close> invokes the operation at most \<open>maxRetries\<close> times
  and, when \<open>maxRetries\<close> is at least 1, at least once; it sleeps exactly once between
  two consecutive invocations, \<open>delay * 2 ^ (a - 1)\<close> after attempt \<open>a\<close>; it re-invokes
  only after a failure that is not a non-retryable \<open>AppError\<close>; its outcome is the
  outcome of the last invocation. The run is determined by the operation: the first
  call within the budget that returns, or that fails with a non-retryable error, is the
  last one, and its value is returned or its error rethrown at once; when every attempt
  of the budget fails with a retryable error, the operation has been invoked
  \<open>maxRetries\<close> times and the error of the last attempt is rethrown; with a budget
  below 1 nothing is invoked and \<open>undefined\<close> is thrown.
\<close>

theorem retryOperation_policy:
  "(let r = retryOperation operation maxRetries delay in
      int (invocations r) \<le> max 0 maxRetries
    \<and> sleeps r = map (\<lambda>a. delay * 2 ^ (a - 1)) [1..<invocations r]
    \<and> (\<forall>k. Suc k < invocations r \<longrightarrow>
           (\<exists>e. operation k = Throws e \<and> \<not> non_retryable e))
    \<and> (\<forall>k e. k < invocations r \<and> operation k = Throws e \<and> non_retryable e \<longrightarrow>
           invocations r = Suc k \<and> result r = Throws e)
    \<and> (1 \<le> maxRetries
         \<and> (\<forall>k. int k < maxRetries \<longrightarrow> (\<exists>e. operation k = Throws e \<and> \<not> non_retryable e))
         \<longrightarrow> invocations r = nat maxRetries \<and> result r = operation (nat maxRetries - 1))
    \<and> (1 \<le> maxRetries \<longrightarrow> 1 \<le> invocations r \<and> result r = operation (invocations r - 1))
    \<and> (maxRetries \<le> 0 \<longrightarrow> invocations r = 0 \<and> result r = Throws Undefined)
    \<and> (\<forall>k e. int k < maxRetries
           \<and> (\<forall>j<k. \<exists>e'. operation j = Throws e' \<and> \<not> non_retryable e')
           \<and> operation k = Throws e \<and> non_retryable e \<longrightarrow>
           invocations r = Suc k \<and> result r = Throws e)
    \<and> (\<forall>k v. int k < maxRetries
           \<and> (\<forall>j<k. \<exists>e'. operation j = Throws e' \<and> \<not> non_retryable e')
           \<and> operation k = Returns v \<longrightarrow>
           invocations r = Suc k \<and> result r = Returns v))"
proof -
  define r where "r = retryOperation operation maxRetries delay"
  have sh: "retry_shape operation maxRetries delay r"
    unfolding r_def by (rule retryOperation_shape)
  have bound: "int (invocations r) \<le> max 0 maxRetries"
    using sh by (simp add: retry_shape_def)
  have waits: "sleeps r = map (\<lambda>a. delay * 2 ^ (a - 1)) [1..<invocations r]"
    using sh by (simp add: retry_shape_def backoff_def)
  have before: "\<not> stops (operation k)" if "Suc k < invocations r" for k
    using sh that by (simp add: retry_shape_def)
  have last: "result r = operation (invocations r - 1)" if "0 < invocations r"
    using sh that by (simp add: retry_shape_def)
  have spent: "int (invocations r) = maxRetries"
    if "0 < invocations r" "\<not> stops (operation (invocations r - 1))"
    using sh that by (simp add: retry_shape_def)
  have none: "maxRetries \<le> 0 \<and> result r = Throws Undefined" if "invocations r = 0"
    using sh that by (simp add: retry_shape_def)
  have p3: "\<exists>e. operation k = Throws e \<and> \<not> non_retryable e" if "Suc k < invocations r" for k
    using before[OF that] by (simp add: retryable_failure_iff)
  have p4: "invocations r = Suc k \<and> result r = Throws e"
    if "k < invocations r" "operation k = Throws e" "non_retryable e" for k e
  proof -
    have "stops (operation k)" using that by (simp add: stops_def)
    then have "\<not> Suc k < invocations r" using before by blast
    with that(1) have "invocations r = Suc k" by simp
    with last that(2) show ?thesis by simp
  qed
  have p5: "invocations r = nat maxRetries \<and> result r = operation (nat maxRetries - 1)"
    if "1 \<le> maxRetries"
       "\<forall>k. int k < maxRetries \<longrightarrow> (\<exists>e. operation k = Throws e \<and> \<not> non_retryable e)"
  proof -
    have pos: "0 < invocations r" using none that(1) by (cases "invocations r") auto
    have "int (invocations r - 1) < maxRetries" using bound pos that(1) by simp
    then have "\<not> stops (operation (invocations r - 1))"
      using that(2) by (simp add: retryable_failure_iff)
    then have "int (invocations r) = maxRetries" using spent pos by blast
    then have "invocations r = nat maxRetries" by simp
    with last pos show ?thesis by simp
  qed
  have p6: "1 \<le> invocations r \<and> result r = operation (invocations r - 1)" if "1 \<le> maxRetries"
  proof -
    have pos: "0 < invocations r" using none that by (cases "invocations r") auto
    with last show ?thesis by simp
  qed
  have p7: "invocations r = 0 \<and> result r = Throws Undefined" if "maxRetries \<le> 0"
  proof -
    from bound that have "invocations r = 0" by simp
    with none show ?thesis by simp
  qed
  have det: "invocations r = Suc k \<and> result r = operation k"
    if "int k < maxRetries" "\<forall>j<k. \<exists>e'. operation j = Throws e' \<and> \<not> non_retryable e'"
       "stops (operation k)" for k
    unfolding r_def using that(1) _ that(3)
  proof (rule retry_run_determined)
    show "\<forall>j<k. \<not> stops (operation j)"
      using that(2) by (simp add: retryable_failure_iff)
  qed
  have p8: "invocations r = Suc k \<and> result r = Throws e"
    if "int k < maxRetries" "\<forall>j<k. \<exists>e'. operation j = Throws e' \<and> \<not> non_retryable e'"
       "operation k = Throws e" "non_retryable e" for k e
    using det[OF that(1,2)] that(3,4) by (simp add: stops_def)
  have p9: "invocations r = Suc k \<and> result r = Returns v"
    if "int k < maxRetries" "\<forall>j<k. \<exists>e'. operation j = Throws e' \<and> \<not> non_retryable e'"
       "operation k = Returns v" for k v
    using det[OF that(1,2)] that(3) by (simp add: stops_def)
  show ?thesis
    unfolding Let_def r_def[symmetric]
    using bound waits p3 p4 p5 p6 p7 p8 p9 by blast
qed


text \<open>The policy at the three operations above, with the default budget of 3 and a
  delay of 1000 ms, and with a budget of 0.\<close>

theorem retryOperation_policy_witness:
  "invocations (retryOperation always_busy 3 1000) = 3
   \<and> sleeps (retryOperation always_busy 3 1000) = [1000, 2000]
   \<and> result (retryOperation always_busy 3 1000) = always_busy 2
   \<and> 1 < invocations (retryOperation busy_then_invalid 3 1000)
   \<and> busy_then_invalid 1 = Throws (App (ValidationError ''Topic is required''))
   \<and> non_retryable (App (ValidationError ''Topic is required''))
   \<and> invocations (retryOperation busy_then_invalid 3 1000) = 2
   \<and> result (retryOperation busy_then_invalid 3 1000)
        = Throws (App (ValidationError ''Topic is required''))
   \<and> sleeps (retryOperation busy_then_invalid 3 1000) = [1000]
   \<and> busy_then_done 1 = Returns ()
   \<and> invocations (retryOperation busy_then_done 3 1000) = 2
   \<and> result (retryOperation busy_then_done 3 1000) = Returns ()
   \<and> invocations (retryOperation always_busy 0 1000) = 0
   \<and> result (retryOperation always_busy 0 1000) = Throws Undefined"
proof -
  have busy: "\<forall>k. int k < 3 \<longrightarrow> (\<exists>e. always_busy k = Throws e \<and> \<not> non_retryable e)"
    by (simp add: always_busy_def ExternalServiceError_def)
  have waits: "sleeps (retryOperation always_busy 3 1000) = [1000, 2000]"
    by code_simp
  have reached: "1 < invocations (retryOperation busy_then_invalid 3 1000)"
    by code_simp
  have second: "busy_then_invalid 1 = Throws (App (ValidationError ''Topic is required''))"
    by (simp add: busy_then_invalid_def)
  have fatal: "non_retryable (App (ValidationError ''Topic is required''))"
    by (simp add: ValidationError_def)
  have first: "\<forall>j<Suc 0. \<exists>e'. busy_then_invalid j = Throws e' \<and> \<not> non_retryable e'"
    by (simp add: busy_then_invalid_def ExternalServiceError_def)
  have first': "\<forall>j<Suc 0. \<exists>e'. busy_then_done j = Throws e' \<and> \<not> non_retryable e'"
    by (simp add: busy_then_done_def ExternalServiceError_def)
  have recovers: "busy_then_done 1 = Returns ()"
    by (simp add: busy_then_done_def)
  have budget: "int (Suc 0) < 3"
    by simp
  note exhausted = retryOperation_policy [of always_busy 3 1000, unfolded Let_def]
  note rejected = retryOperation_policy [of busy_then_invalid 3 1000, unfolded Let_def]
  note recovered = retryOperation_policy [of busy_then_done 3 1000, unfolded Let_def]
  note unused = retryOperation_policy [of always_busy 0 1000, unfolded Let_def]
  from exhausted busy
  have a: "invocations (retryOperation always_busy 3 1000) = 3
        \<and> result (retryOperation always_busy 3 1000) = always_busy 2"
    by simp
  from rejected
  have "\<forall>k e. int k < 3
           \<and> (\<forall>j<k. \<exists>e'. busy_then_invalid j = Throws e' \<and> \<not> non_retryable e')
           \<and> busy_then_invalid k = Throws e \<and> non_retryable e \<longrightarrow>
           invocations (retryOperation busy_then_invalid 3 1000) = Suc k
           \<and> result (retryOperation busy_then_invalid 3 1000) = Throws e"
    by (elim conjE)
  from this[rule_format, of "Suc 0" "App (ValidationError ''Topic is required'')"]
       first second fatal budget
  have b: "invocations (retryOperation busy_then_invalid 3 1000) = Suc (Suc 0)
        \<and> result (retryOperation busy_then_invalid 3 1000)
              = Throws (App (ValidationError ''Topic is required''))"
    by simp
  from rejected b
  have b': "sleeps (retryOperation busy_then_invalid 3 1000) = [1000]"
    by simp
  from recovered
  have "\<forall>k v. int k < 3
           \<and> (\<forall>j<k. \<exists>e'. busy_then_done j = Throws e' \<and> \<not> non_retryable e')
           \<and> busy_then_done k = Returns v \<longrightarrow>
           invocations (retryOperation busy_then_done 3 1000) = Suc k
           \<and> result (retryOperation busy_then_done 3 1000) = Returns v"
    by (elim conjE)
  from this[rule_format, of "Suc 0" "()"] first' recovers budget
  have c: "invocations (retryOperation busy_then_done 3 1000) = Suc (Suc 0)
        \<and> result (retryOperation busy_then_done 3 1000) = Returns ()"
    by simp
  from unused
  have d: "invocations (retryOperation always_busy 0 1000) = 0
        \<and> result (retryOperation always_busy 0 1000) = Throws Undefined"
    by simp
  from a b b' c d waits reached second fatal recovers show ?thesis
    by simp
qed


section \<open>Visual content (src/services/VisualContentService.ts)\<close>

datatype visual_type = Image | Video | Animation

text \<open>The interface \<open>VisualContent\<close>; \<open>vtype\<close> is its field \<open>type\<close>.\<close>

record VisualContent =
  vtype :: visual_type
  source :: string
  duration :: number
  startTime :: number
  url :: "string option"

subsection \<open>assignTimingToVisuals\<close>

text \<open>
  The \<open>while\<close> loop with its three variables; \<open>visuals[visualIndex % visuals.length]\<close>
  is read only when \<open>visualIndex < visuals.length * 3\<close>, so the list is not empty there
  and the index is in range. The subtraction \<open>totalDuration - currentTime\<close> and the
  addition \<open>currentTime += visualDuration\<close> round to doubles; \<open>Math.min\<close> and the
  comparisons are exact.
\<close>

function timing_loop ::
  "VisualContent list \<Rightarrow> number \<Rightarrow> VisualContent list \<Rightarrow> number \<Rightarrow> nat
     \<Rightarrow> VisualContent list" where
  "timing_loop visuals totalDuration timedVisuals currentTime visualIndex =
     (if currentTime < totalDuration \<and> visualIndex < length visuals * 3 then
        (let visual = visuals ! (visualIndex mod length visuals);
             remainingTime = double (totalDuration - currentTime);
             visualDuration = min (duration visual) remainingTime
         in if visualDuration > 0
            then timing_loop visuals totalDuration
                   (timedVisuals @ [visual\<lparr>duration := visualDuration, startTime := currentTime\<rparr>])
                   (double (currentTime + visualDuration)) (visualIndex + 1)
            else timing_loop visuals totalDuration timedVisuals currentTime (visualIndex + 1))
      else timedVisuals)"
  by pat_completeness auto
termination
  by (relation "measure (\<lambda>(visuals, totalDuration, timedVisuals, currentTime, visualIndex).
        length visuals * 3 - visualIndex)") auto

declare timing_loop.simps [simp del]

definition assignTimingToVisuals :: "VisualContent list \<Rightarrow> number \<Rightarrow> VisualContent list" where
  "assignTimingToVisuals visuals totalDuration =
     (if length visuals = 0 then []
      else timing_loop visuals totalDuration [] 0 0)"

text \<open>
  The same loop as a computation that may fail to return: \<open>None\<close> stands for a loop that
  runs forever, so that termination is a statement about the code and not a property of
  the way it is written down.
\<close>

partial_function (option) timing_while ::
  "VisualContent list \<Rightarrow> number \<Rightarrow> VisualContent list \<Rightarrow> number \<Rightarrow> nat
     \<Rightarrow> VisualContent list option" where
  "timing_while visuals totalDuration timedVisuals currentTime visualIndex =
     (if currentTime < totalDuration \<and> visualIndex < length visuals * 3 then
        (let visual = visuals ! (visualIndex mod length visuals);
             remainingTime = double (totalDuration - currentTime);
             visualDuration = min (duration visual) remainingTime
         in if visualDuration > 0
            then timing_while visuals totalDuration
                   (timedVisuals @ [visual\<lparr>duration := visualDuration, startTime := currentTime\<rparr>])
                   (double (currentTime + visualDuration)) (visualIndex + 1)
            else timing_while visuals totalDuration timedVisuals currentTime (visualIndex + 1))
      else Some timedVisuals)"

declare timing_while.simps [code]

definition assignTimingToVisuals_run ::
  "VisualContent list \<Rightarrow> number \<Rightarrow> VisualContent list option" where
  "assignTimingToVisuals_run visuals totalDuration =
     (if length visuals = 0 then Some []
      else timing_while visuals totalDuration [] 0 0)"

text \<open>The duration the loop body computes at a state, and the slice it pushes.\<close>

definition slice_duration :: "VisualContent list \<Rightarrow> number \<Rightarrow> number \<Rightarrow> nat \<Rightarrow> number" where
  "slice_duration visuals totalDuration currentTime visualIndex =
     min (duration (visuals ! (visualIndex mod length visuals)))
         (double (totalDuration - currentTime))"

definition slice :: "VisualContent list \<Rightarrow> number \<Rightarrow> number \<Rightarrow> nat \<Rightarrow> VisualContent" where
  "slice visuals totalDuration currentTime visualIndex =
     (visuals ! (visualIndex mod length visuals))
       \<lparr>duration := slice_duration visuals totalDuration currentTime visualIndex,
        startTime := currentTime\<rparr>"


definition total_duration :: "VisualContent list \<Rightarrow> number" where
  "total_duration vs = sum_list (map duration vs)"


text \<open>The asset a slice shows: what \<open>{...visual, startTime, duration}\<close> copies.\<close>

definition asset_of :: "VisualContent \<Rightarrow> visual_type \<times> string \<times> string option" where
  "asset_of v = (vtype v, source v, url v)"

text \<open>Assets to run the function on.\<close>

definition image5 :: VisualContent where
  "image5 = \<lparr>vtype = Image, source = ''https://images.example/a.jpg'', duration = 5,
             startTime = 0, url = Some ''https://images.example/a.jpg''\<rparr>"


definition still0 :: VisualContent where
  "still0 = \<lparr>vtype = Image, source = ''https://images.example/c.jpg'', duration = 0,
             startTime = 0, url = None\<rparr>"





subsection \<open>The loop, one iteration at a time\<close>

lemma timing_loop_stop:
  "\<not> (currentTime < totalDuration \<and> visualIndex < length visuals * 3) \<Longrightarrow>
   timing_loop visuals totalDuration timedVisuals currentTime visualIndex = timedVisuals"
  by (subst timing_loop.simps) (simp only: if_False)

lemma timing_loop_push:
  "currentTime < totalDuration \<and> visualIndex < length visuals * 3 \<Longrightarrow>
   0 < slice_duration visuals totalDuration currentTime visualIndex \<Longrightarrow>
   timing_loop visuals totalDuration timedVisuals currentTime visualIndex
     = timing_loop visuals totalDuration
         (timedVisuals @ [slice visuals totalDuration currentTime visualIndex])
         (double (currentTime + slice_duration visuals totalDuration currentTime visualIndex))
         (Suc visualIndex)"
  by (subst timing_loop.simps)
     (simp add: Let_def slice_def slice_duration_def del: min_less_iff_conj)

lemma timing_loop_skip:
  "currentTime < totalDuration \<and> visualIndex < length visuals * 3 \<Longrightarrow>
   \<not> 0 < slice_duration visuals totalDuration currentTime visualIndex \<Longrightarrow>
   timing_loop visuals totalDuration timedVisuals currentTime visualIndex
     = timing_loop visuals totalDuration timedVisuals currentTime (Suc visualIndex)"
  by (subst timing_loop.simps)
     (simp add: Let_def slice_duration_def del: min_less_iff_conj)

lemma timing_loop_cases [case_names stop push skip]:
  assumes "\<And>timedVisuals currentTime visualIndex.
             \<not> (currentTime < totalDuration \<and> visualIndex < length visuals * 3) \<Longrightarrow>
             P timedVisuals currentTime visualIndex"
      and "\<And>timedVisuals currentTime visualIndex.
             currentTime < totalDuration \<and> visualIndex < length visuals * 3 \<Longrightarrow>
             0 < slice_duration visuals totalDuration currentTime visualIndex \<Longrightarrow>
             P (timedVisuals @ [slice visuals totalDuration currentTime visualIndex])
               (double (currentTime + slice_duration visuals totalDuration currentTime visualIndex))
               (Suc visualIndex) \<Longrightarrow>
             P timedVisuals currentTime visualIndex"
      and "\<And>timedVisuals currentTime visualIndex.
             currentTime < totalDuration \<and> visualIndex < length visuals * 3 \<Longrightarrow>
             \<not> 0 < slice_duration visuals totalDuration currentTime visualIndex \<Longrightarrow>
             P timedVisuals currentTime (Suc visualIndex) \<Longrightarrow>
             P timedVisuals currentTime visualIndex"
  shows "P timedVisuals currentTime visualIndex"
proof (induction "length visuals * 3 - visualIndex" arbitrary: timedVisuals currentTime visualIndex)
  case 0
  then show ?case using assms(1) by simp
next
  case (Suc n)
  show ?case
  proof (cases "currentTime < totalDuration \<and> visualIndex < length visuals * 3")
    case False
    then show ?thesis by (rule assms(1))
  next
    case go: True
    have n: "n = length visuals * 3 - Suc visualIndex" using Suc.hyps(2) by simp
    show ?thesis
    proof (cases "0 < slice_duration visuals totalDuration currentTime visualIndex")
      case True
      with go show ?thesis using Suc.hyps(1)[OF n] by (rule assms(2))
    next
      case False
      with go show ?thesis using Suc.hyps(1)[OF n] by (rule assms(3))
    qed
  qed
qed






lemma whole_0 [simp]: "whole 0"
  by (simp add: whole_def)


lemma timing_while_returns:
  "timing_while visuals totalDuration timedVisuals currentTime visualIndex
     = Some (timing_loop visuals totalDuration timedVisuals currentTime visualIndex)"
proof (induction timedVisuals currentTime visualIndex
       rule: timing_loop_cases[where visuals = visuals and totalDuration = totalDuration])
  case (stop timedVisuals currentTime visualIndex)
  then show ?case
    by (subst timing_while.simps) (auto simp: timing_loop_stop)
next
  case (push timedVisuals currentTime visualIndex)
  then show ?case
    by (subst timing_while.simps) (simp add: timing_loop_push Let_def slice_def slice_duration_def del: min_less_iff_conj)
next
  case (skip timedVisuals currentTime visualIndex)
  then show ?case
    by (subst timing_while.simps) (simp add: timing_loop_skip Let_def slice_def slice_duration_def del: min_less_iff_conj)
qed

lemma total_duration_Nil [simp]: "total_duration [] = 0"
  by (simp add: total_duration_def)

lemma total_duration_snoc [simp]: "total_duration (vs @ [v]) = total_duration vs + duration v"
  by (simp add: total_duration_def)

lemma duration_slice [simp]:
  "duration (slice visuals totalDuration currentTime visualIndex)
     = slice_duration visuals totalDuration currentTime visualIndex"
  by (simp add: slice_def)

lemma startTime_slice [simp]:
  "startTime (slice visuals totalDuration currentTime visualIndex) = currentTime"
  by (simp add: slice_def)
















subsection \<open>The timeline that assignTimingToVisuals returns\<close>


lemma asset_of_slice [simp]:
  "asset_of (slice visuals totalDuration currentTime visualIndex)
     = asset_of (visuals ! (visualIndex mod length visuals))"
  by (simp add: asset_of_def slice_def)




















text \<open>
  Claim C9. For every asset list (the empty list and assets of zero or negative duration
  included) and every target duration, the loop of \<open>assignTimingToVisuals\<close> returns:
  run as a computation that may diverge, it yields \<open>Some\<close> result, the one of the total
  function.
\<close>

theorem assignTimingToVisuals_terminates:
  "assignTimingToVisuals_run visuals totalDuration
     = Some (assignTimingToVisuals visuals totalDuration)"
  by (simp add: assignTimingToVisuals_run_def assignTimingToVisuals_def timing_while_returns)


text \<open>C9 at the empty list, at assets without positive duration, and at a negative target.\<close>

theorem assignTimingToVisuals_terminates_witness:
  "assignTimingToVisuals_run [] 30 = Some []
   \<and> assignTimingToVisuals_run [still0, image5\<lparr>duration := - 3\<rparr>] 30 = Some []
   \<and> assignTimingToVisuals_run [image5] (- 1) = Some []"
proof -
  have "assignTimingToVisuals [] 30 = []"
       "assignTimingToVisuals [still0, image5\<lparr>duration := - 3\<rparr>] 30 = []"
       "assignTimingToVisuals [image5] (- 1) = []"
    by code_simp+
  with assignTimingToVisuals_terminates [of "[]" 30]
       assignTimingToVisuals_terminates [of "[still0, image5\<lparr>duration := - 3\<rparr>]" 30]
       assignTimingToVisuals_terminates [of "[image5]" "- 1"]
  show ?thesis by simp
qed


section \<open>Strings\<close>

text \<open>
  The string operations of JavaScript that the services use, on ASCII text.
  \<open>is_whitespace\<close> is what \<open>trim\<close> strips and what the regular expression \<open>\s\<close>
  matches: space, tab, line feed, vertical tab, form feed and carriage return.
\<close>

definition is_whitespace :: "char \<Rightarrow> bool" where
  "is_whitespace c =
     (c = CHR '' '' \<or> c = CHR 0x09 \<or> c = CHR 0x0A \<or> c = CHR 0x0B \<or> c = CHR 0x0C \<or> c = CHR 0x0D)"

definition trim :: "string \<Rightarrow> string" where
  "trim s = rev (dropWhile is_whitespace (rev (dropWhile is_whitespace s)))"

text \<open>
  \<open>s.split(/[...]+/)\<close> for a class of separator characters: the pieces between the
  maximal runs of separators, an empty piece before a leading run and after a trailing
  one. The first argument is the piece read so far.
\<close>

function split_on_runs :: "(char \<Rightarrow> bool) \<Rightarrow> string \<Rightarrow> string \<Rightarrow> string list" where
  "split_on_runs sep piece [] = [piece]"
| "split_on_runs sep piece (c # cs) =
     (if sep c then piece # split_on_runs sep [] (dropWhile sep cs)
      else split_on_runs sep (piece @ [c]) cs)"
  by pat_completeness auto
termination
  by (relation "measure (\<lambda>(sep, piece, cs). length cs)")
     (auto simp: le_imp_less_Suc length_dropWhile_le)

text \<open>\<open>s.split(' ')\<close>: every single space separates, so two spaces in a row give an empty piece.\<close>

fun split_on_char :: "char \<Rightarrow> string \<Rightarrow> string \<Rightarrow> string list" where
  "split_on_char sep piece [] = [piece]"
| "split_on_char sep piece (c # cs) =
     (if c = sep then piece # split_on_char sep [] cs
      else split_on_char sep (piece @ [c]) cs)"

section \<open>Text to speech (src/services/TextToSpeechService.ts)\<close>

subsection \<open>splitTextIntoChunks\<close>

definition sentence_end :: "char \<Rightarrow> bool" where
  "sentence_end c = (c = CHR ''.'' \<or> c = CHR ''!'' \<or> c = CHR ''?'')"

text \<open>
  The chunk-size limit is a natural number. The body of the inner loop
  \<open>for (const word of words)\<close>, on the pair \<open>(chunks, wordChunk)\<close>:
\<close>

definition word_step :: "nat \<Rightarrow> string list \<times> string \<Rightarrow> string \<Rightarrow> string list \<times> string" where
  "word_step maxChunkSize st word =
     (let (chunks, wordChunk) = st;
          (chunks, wordChunk) =
            (if length wordChunk + length word + 1 > maxChunkSize
             then (if wordChunk \<noteq> [] then (chunks @ [trim wordChunk], [])
                   else (chunks, wordChunk))
             else (chunks, wordChunk))
      in (chunks, wordChunk @ (if wordChunk \<noteq> [] then '' '' else []) @ word))"

text \<open>The body of the outer loop \<open>for (const sentence of sentences)\<close>, on \<open>(chunks, currentChunk)\<close>.\<close>

definition sentence_step :: "nat \<Rightarrow> string list \<times> string \<Rightarrow> string \<Rightarrow> string list \<times> string" where
  "sentence_step maxChunkSize st sentence =
     (let (chunks, currentChunk) = st;
          trimmedSentence = trim sentence
      in if trimmedSentence = [] then (chunks, currentChunk)
         else
           (let sentenceWithPunctuation = trimmedSentence @ ''.''
            in if length currentChunk + length sentenceWithPunctuation > maxChunkSize
               then
                 (let (chunks, currentChunk) =
                        (if currentChunk \<noteq> [] then (chunks @ [trim currentChunk], [])
                         else (chunks, currentChunk))
                  in if length sentenceWithPunctuation > maxChunkSize
                     then
                       (let words = split_on_char (CHR '' '') [] sentenceWithPunctuation;
                            (chunks, wordChunk) = foldl (word_step maxChunkSize) (chunks, []) words
                        in if wordChunk \<noteq> [] then (chunks, wordChunk)
                           else (chunks, currentChunk))
                     else (chunks, sentenceWithPunctuation))
               else (chunks,
                     currentChunk @ (if currentChunk \<noteq> [] then '' '' else [])
                       @ sentenceWithPunctuation)))"

definition splitTextIntoChunks :: "string \<Rightarrow> nat \<Rightarrow> string list" where
  "splitTextIntoChunks text maxChunkSize =
     (if length text \<le> maxChunkSize then [text]
      else
        (let sentences = split_on_runs sentence_end [] text;
             (chunks, currentChunk) = foldl (sentence_step maxChunkSize) ([], []) sentences
         in if currentChunk \<noteq> [] then chunks @ [trim currentChunk] else chunks))"


lemma splitTextIntoChunks_short:
  "length text \<le> maxChunkSize \<Longrightarrow> splitTextIntoChunks text maxChunkSize = [text]"
  by (simp add: splitTextIntoChunks_def)

text \<open>
  Claim C7 fails on the code. The outer loop joins a sentence to the current chunk when
  \<open>currentChunk.length + sentenceWithPunctuation.length\<close> is not above the limit, and
  then adds a space between them, which the test does not count (the inner loop over
  words does count it, with \<open>+ 1\<close>). Two sentences of 5 characters each pass the test
  for a limit of 10 and make a chunk of 11 characters.
\<close>

theorem splitTextIntoChunks_overlong_chunk:
  "\<not> length ''aaaa. bbbb. cccc.'' \<le> 10
   \<and> splitTextIntoChunks ''aaaa. bbbb. cccc.'' 10 = [''aaaa. bbbb.'', ''cccc.'']
   \<and> \<not> length ''aaaa. bbbb.'' \<le> 10"
  by code_simp

section \<open>The task queue (TaskQueueService)\<close>

text \<open>
  A task object (\<open>task_id\<close> is its field \<open>id\<close>). The registry stores values of type
  \<open>any\<close>, so the status is a string here and not one of four constructors.
\<close>

record task =
  task_id :: string
  userId :: string
  topic :: string
  status :: string
  progress :: number
  createdAt :: nat
  completedAt :: "nat option"
  error :: "string option"

text \<open>
  The service mutates task objects that the map and a running \<open>processTask\<close> share, so
  the state has an explicit store: \<open>objects\<close> holds every task object ever created, an
  object's address is its index there, and \<open>tasks\<close> is the \<open>Map\<close> from task ids to
  addresses in insertion order. \<open>timers\<close> are the calls of \<open>processTask\<close> that
  \<open>setTimeout\<close> has scheduled and that have not started; \<open>running\<close> are the calls that
  wait in \<open>simulateVideoProcessing\<close>, each with the object it holds in \<open>task\<close>.
\<close>

record queue =
  objects :: "task list"
  tasks :: "(string \<times> nat) list"
  timers :: "string list"
  running :: "(string \<times> nat) list"

definition new_queue :: queue where
  "new_queue = \<lparr>objects = [], tasks = [], timers = [], running = []\<rparr>"

text \<open>\<open>task.status = s\<close> on the object at address \<open>a\<close>.\<close>

definition set_status :: "nat \<Rightarrow> string \<Rightarrow> task list \<Rightarrow> task list" where
  "set_status a s objs = objs[a := (objs ! a)\<lparr>status := s\<rparr>]"

text \<open>
  \<open>addTask\<close>: \<open>uuid\<close> is what \<open>uuidv4()\<close> would return. The stored object is a fresh
  copy of the argument with \<open>id\<close> and \<open>status\<close> overwritten.
\<close>

definition addTask :: "task \<Rightarrow> string \<Rightarrow> queue \<Rightarrow> string \<times> queue" where
  "addTask t uuid q =
     (let taskId = (if task_id t \<noteq> [] then task_id t else uuid);
          a = length (objects q)
      in (taskId,
          q\<lparr>objects := objects q @ [t\<lparr>task_id := taskId, status := ''pending''\<rparr>],
            tasks := AList.update taskId a (tasks q),
            timers := timers q @ [taskId]\<rparr>))"

text \<open>\<open>processTask\<close> up to its \<open>await\<close>: the timer number \<open>n\<close> fires.\<close>

definition processTask_start :: "nat \<Rightarrow> queue \<Rightarrow> queue" where
  "processTask_start n q =
     (if n < length (timers q) then
        (let taskId = timers q ! n;
             q = q\<lparr>timers := take n (timers q) @ drop (Suc n) (timers q)\<rparr>
         in case map_of (tasks q) taskId of
              None \<Rightarrow> q
            | Some a \<Rightarrow>
                q\<lparr>objects := set_status a ''processing'' (objects q),
                  tasks := AList.update taskId a (tasks q),
                  running := running q @ [(taskId, a)]\<rparr>)
      else q)"

text \<open>\<open>processTask\<close> after the \<open>await\<close>: the running call number \<open>n\<close> marks its object completed.\<close>

definition processTask_finish :: "nat \<Rightarrow> queue \<Rightarrow> queue" where
  "processTask_finish n q =
     (if n < length (running q) then
        (let (taskId, a) = running q ! n
         in q\<lparr>objects := set_status a ''completed'' (objects q),
              tasks := AList.update taskId a (tasks q),
              running := take n (running q) @ drop (Suc n) (running q)\<rparr>)
      else q)"

text \<open>The \<open>catch\<close> block: the running call number \<open>n\<close> failed with message \<open>msg\<close>.\<close>

definition processTask_fail :: "nat \<Rightarrow> string \<Rightarrow> queue \<Rightarrow> queue" where
  "processTask_fail n msg q =
     (if n < length (running q) then
        (let (taskId, held) = running q ! n;
             q = q\<lparr>running := take n (running q) @ drop (Suc n) (running q)\<rparr>
         in case map_of (tasks q) taskId of
              None \<Rightarrow> q
            | Some a \<Rightarrow>
                q\<lparr>objects := (set_status a ''failed'' (objects q))
                                [a := (set_status a ''failed'' (objects q) ! a)\<lparr>error := Some msg\<rparr>],
                  tasks := AList.update taskId a (tasks q)\<rparr>)
      else q)"

datatype event =
    AddTask task string
  | StartProcess nat
  | FinishProcess nat
  | FailProcess nat string

fun step :: "queue \<Rightarrow> event \<Rightarrow> queue" where
  "step q (AddTask t uuid) = snd (addTask t uuid q)"
| "step q (StartProcess n) = processTask_start n q"
| "step q (FinishProcess n) = processTask_finish n q"
| "step q (FailProcess n msg) = processTask_fail n msg q"

text \<open>The state after a sequence of steps of the service, in any interleaving.\<close>

definition run :: "event list \<Rightarrow> queue" where
  "run evs = foldl step new_queue evs"

text \<open>\<open>Array.from(this.tasks.values())\<close>\<close>

definition stored_tasks :: "queue \<Rightarrow> task list" where
  "stored_tasks q = map (\<lambda>(k, a). objects q ! a) (tasks q)"

record queue_stats =
  waiting :: nat
  active :: nat
  completed :: nat
  failed :: nat

definition getQueueStats :: "queue \<Rightarrow> queue_stats" where
  "getQueueStats q =
     (let ts = stored_tasks q
      in \<lparr>waiting = length (filter (\<lambda>t. status t = ''pending'') ts),
          active = length (filter (\<lambda>t. status t = ''processing'') ts),
          completed = length (filter (\<lambda>t. status t = ''completed'') ts),
          failed = length (filter (\<lambda>t. status t = ''failed'') ts)\<rparr>)"

definition valid_status :: "string \<Rightarrow> bool" where
  "valid_status s =
     (s = ''pending'' \<or> s = ''processing'' \<or> s = ''completed'' \<or> s = ''failed'')"


text \<open>\<open>getTaskStatus\<close>: the \<open>catch\<close> block wraps the error of a missing task once more.\<close>

definition getTaskStatus :: "string \<Rightarrow> queue \<Rightarrow> string outcome" where
  "getTaskStatus taskId q =
     (case map_of (tasks q) taskId of
        None \<Rightarrow>
          Throws (App (QueueError (''Failed to get task status: ''
                                     @ message (QueueError ''Task not found''))))
      | Some a \<Rightarrow> Returns (status (objects q ! a)))"

text \<open>A caller's task that carries no id and a status of its own, and a run of the service.\<close>

definition draft_task :: task where
  "draft_task = \<lparr>task_id = [], userId = ''u1'', topic = ''Daisy care'', status = ''archived'',
                  progress = 0, createdAt = 0, completedAt = None, error = None\<rparr>"

definition demo_run :: "event list" where
  "demo_run =
     [AddTask draft_task ''uuid-1'', AddTask (draft_task\<lparr>task_id := ''t2''\<rparr>) ''uuid-2'',
      StartProcess 0, StartProcess 0, FinishProcess 0, FailProcess 0 ''encoder crashed'',
      AddTask (draft_task\<lparr>status := ''completed''\<rparr>) ''uuid-3'']"

subsection \<open>Every stored status is one of the four\<close>

definition queue_inv :: "queue \<Rightarrow> bool" where
  "queue_inv q =
     ((\<forall>t\<in>set (objects q). valid_status (status t))
      \<and> (\<forall>p\<in>set (tasks q). snd p < length (objects q))
      \<and> (\<forall>p\<in>set (running q). snd p < length (objects q)))"

lemma set_alist_update: "set (AList.update k v al) \<subseteq> insert (k, v) (set al)"
  by (induction al) auto

lemma set_remove_nth: "set (take n xs @ drop (Suc n) xs) \<subseteq> set xs"
  using set_take_subset[of n xs] set_drop_subset[of "Suc n" xs] by auto

lemma length_set_status [simp]: "length (set_status a s objs) = length objs"
  by (simp add: set_status_def)

lemma valid_set_status:
  "\<forall>t\<in>set objs. valid_status (status t) \<Longrightarrow> valid_status s \<Longrightarrow>
   \<forall>t\<in>set (set_status a s objs). valid_status (status t)"
  using set_update_subset_insert[of objs a "(objs ! a)\<lparr>status := s\<rparr>"]
  by (auto simp: set_status_def)

lemma valid_set_error:
  assumes v: "\<forall>t\<in>set objs. valid_status (status t)"
  shows "\<forall>t\<in>set (objs[a := (objs ! a)\<lparr>error := e\<rparr>]). valid_status (status t)"
proof (cases "a < length objs")
  case True
  with v have "valid_status (status ((objs ! a)\<lparr>error := e\<rparr>))" by simp
  with v show ?thesis
    using set_update_subset_insert[of objs a "(objs ! a)\<lparr>error := e\<rparr>"] by auto
next
  case False
  then have "objs[a := (objs ! a)\<lparr>error := e\<rparr>] = objs"
    by (metis list_update_beyond linorder_not_less)
  with v show ?thesis by metis
qed

lemma tasks_ref_valid:
  "queue_inv q \<Longrightarrow> map_of (tasks q) k = Some a \<Longrightarrow> a < length (objects q)"
proof -
  assume inv: "queue_inv q" and m: "map_of (tasks q) k = Some a"
  from m have "(k, a) \<in> set (tasks q)" by (rule map_of_SomeD)
  with inv show ?thesis by (force simp: queue_inv_def)
qed

lemma queue_inv_new: "queue_inv new_queue"
  by (simp add: queue_inv_def new_queue_def)

lemma queue_inv_addTask: "queue_inv q \<Longrightarrow> queue_inv (snd (addTask t uuid q))"
  using set_alist_update[of "if task_id t \<noteq> [] then task_id t else uuid" "length (objects q)" "tasks q"]
  by (auto simp: queue_inv_def addTask_def Let_def valid_status_def less_Suc_eq)

lemma queue_inv_start: "queue_inv q \<Longrightarrow> queue_inv (processTask_start n q)"
proof -
  assume inv: "queue_inv q"
  show ?thesis
  proof (cases "n < length (timers q)")
    case False
    with inv show ?thesis by (simp add: processTask_start_def)
  next
    case n: True
    show ?thesis
    proof (cases "map_of (tasks q) (timers q ! n)")
      case None
      with n inv show ?thesis by (simp add: processTask_start_def queue_inv_def Let_def)
    next
      case (Some a)
      then have a: "a < length (objects q)"
        using inv by (simp add: tasks_ref_valid)
      have v: "\<forall>t\<in>set (set_status a ''processing'' (objects q)). valid_status (status t)"
        using inv by (intro valid_set_status) (auto simp: queue_inv_def valid_status_def)
      have "\<forall>p\<in>set (AList.update (timers q ! n) a (tasks q)). snd p < length (objects q)"
        using set_alist_update[of "timers q ! n" a "tasks q"] a inv
        by (auto simp: queue_inv_def)
      with n Some v a inv show ?thesis
        by (auto simp: processTask_start_def queue_inv_def Let_def)
    qed
  qed
qed

lemma queue_inv_finish: "queue_inv q \<Longrightarrow> queue_inv (processTask_finish n q)"
proof -
  assume inv: "queue_inv q"
  show ?thesis
  proof (cases "n < length (running q)")
    case False
    with inv show ?thesis by (simp add: processTask_finish_def)
  next
    case n: True
    obtain taskId a where r: "running q ! n = (taskId, a)" by (cases "running q ! n")
    with n have "(taskId, a) \<in> set (running q)" by (metis nth_mem)
    then have a: "a < length (objects q)" using inv by (auto simp: queue_inv_def)
    have v: "\<forall>t\<in>set (set_status a ''completed'' (objects q)). valid_status (status t)"
      using inv by (intro valid_set_status) (auto simp: queue_inv_def valid_status_def)
    have t: "\<forall>p\<in>set (AList.update taskId a (tasks q)). snd p < length (objects q)"
      using set_alist_update[of taskId a "tasks q"] a inv by (auto simp: queue_inv_def)
    have u: "\<forall>p\<in>set (take n (running q) @ drop (Suc n) (running q)). snd p < length (objects q)"
      using set_remove_nth[of n "running q"] inv by (auto simp: queue_inv_def)
    from n r v t u show ?thesis
      by (simp add: processTask_finish_def queue_inv_def)
  qed
qed

lemma queue_inv_fail: "queue_inv q \<Longrightarrow> queue_inv (processTask_fail n msg q)"
proof -
  assume inv: "queue_inv q"
  show ?thesis
  proof (cases "n < length (running q)")
    case False
    with inv show ?thesis by (simp add: processTask_fail_def)
  next
    case n: True
    obtain taskId held where r: "running q ! n = (taskId, held)" by (cases "running q ! n")
    have u: "\<forall>p\<in>set (take n (running q) @ drop (Suc n) (running q)). snd p < length (objects q)"
      using set_remove_nth[of n "running q"] inv by (auto simp: queue_inv_def)
    show ?thesis
    proof (cases "map_of (tasks q) taskId")
      case None
      with n r u inv show ?thesis by (simp add: processTask_fail_def queue_inv_def)
    next
      case (Some a)
      then have a: "a < length (objects q)"
        using inv by (simp add: tasks_ref_valid)
      have "\<forall>t\<in>set (set_status a ''failed'' (objects q)). valid_status (status t)"
        using inv by (intro valid_set_status) (auto simp: queue_inv_def valid_status_def)
      then have v: "\<forall>t\<in>set ((set_status a ''failed'' (objects q))
                  [a := (set_status a ''failed'' (objects q) ! a)\<lparr>error := Some msg\<rparr>]).
                valid_status (status t)"
        by (rule valid_set_error)
      have t: "\<forall>p\<in>set (AList.update taskId a (tasks q)). snd p < length (objects q)"
        using set_alist_update[of taskId a "tasks q"] a inv by (auto simp: queue_inv_def)
      from n r Some v t u show ?thesis
        by (simp add: processTask_fail_def queue_inv_def)
    qed
  qed
qed

lemma queue_inv_step: "queue_inv q \<Longrightarrow> queue_inv (step q ev)"
  by (cases ev) (simp_all add: queue_inv_addTask queue_inv_start queue_inv_finish queue_inv_fail)

lemma queue_inv_foldl: "queue_inv q \<Longrightarrow> queue_inv (foldl step q evs)"
  by (induction evs arbitrary: q) (simp_all add: queue_inv_step)

lemma queue_inv_run: "queue_inv (run evs)"
  unfolding run_def by (rule queue_inv_foldl) (rule queue_inv_new)

lemma stored_tasks_valid:
  "queue_inv q \<Longrightarrow> \<forall>t\<in>set (stored_tasks q). valid_status (status t)"
  by (auto simp: queue_inv_def stored_tasks_def)

lemma status_partition:
  "\<forall>t\<in>set ts. valid_status (status t) \<Longrightarrow>
   length (filter (\<lambda>t. status t = ''pending'') ts)
   + length (filter (\<lambda>t. status t = ''processing'') ts)
   + length (filter (\<lambda>t. status t = ''completed'') ts)
   + length (filter (\<lambda>t. status t = ''failed'') ts) = length ts"
  by (induction ts) (auto simp: valid_status_def)


lemma addTask_pending:
  "getTaskStatus (fst (addTask t uuid q)) (snd (addTask t uuid q)) = Returns ''pending''"
  by (simp add: getTaskStatus_def addTask_def Let_def update_conv')


text \<open>
  Claim C10. In every state that the registry reaches by any interleaving of \<open>addTask\<close>
  calls and \<open>processTask\<close> steps, every stored task's status is \<open>pending\<close>,
  \<open>processing\<close>, \<open>completed\<close> or \<open>failed\<close>, so the four counts of \<open>getQueueStats\<close>
  sum to the number of stored tasks; and \<open>addTask\<close> stores the status \<open>pending\<close>
  whatever status the caller supplied.
\<close>

theorem queue_status_invariant:
  "(let q = run evs; s = getQueueStats q in
      (\<forall>t\<in>set (stored_tasks q).
          status t = ''pending'' \<or> status t = ''processing''
          \<or> status t = ''completed'' \<or> status t = ''failed'')
    \<and> waiting s + active s + completed s + failed s = length (stored_tasks q)
    \<and> (\<forall>t uuid. getTaskStatus (fst (addTask t uuid q)) (snd (addTask t uuid q))
                    = Returns ''pending''))"
proof -
  have v: "\<forall>t\<in>set (stored_tasks (run evs)). valid_status (status t)"
    by (rule stored_tasks_valid) (rule queue_inv_run)
  from status_partition[OF v] v show ?thesis
    by (simp add: Let_def getQueueStats_def addTask_pending valid_status_def)
qed


text \<open>C10 at the run above: three tasks, one waiting, one completed, one failed.\<close>

theorem queue_status_invariant_witness:
  "getQueueStats (run demo_run) = \<lparr>waiting = 1, active = 0, completed = 1, failed = 1\<rparr>
   \<and> length (stored_tasks (run demo_run)) = 3
   \<and> (draft_task\<lparr>task_id := ''uuid-1'', status := ''completed''\<rparr>) \<in> set (stored_tasks (run demo_run))
   \<and> getTaskStatus ''uuid-3'' (run demo_run) = Returns ''pending''"
proof -
  have stats: "getQueueStats (run demo_run) = \<lparr>waiting = 1, active = 0, completed = 1, failed = 1\<rparr>"
    by code_simp
  have mem: "(draft_task\<lparr>task_id := ''uuid-1'', status := ''completed''\<rparr>) \<in> set (stored_tasks (run demo_run))"
    by code_simp
  have st: "getTaskStatus ''uuid-3'' (run demo_run) = Returns ''pending''"
    by code_simp
  from queue_status_invariant [of demo_run] stats mem st
  show ?thesis by (simp add: Let_def)
qed



section \<open>Script generation (AIContentGenerationService.generateScript)\<close>

text \<open>
  The collaborator is the chat-completion call. It receives the prompt that
  \<open>buildScriptPrompt\<close> builds; the model keeps the values that fill the holes of the
  prompt's template and leaves the fixed text out. It answers with
  \<open>completion.choices[0]?.message?.content\<close> (\<open>None\<close> when that is \<open>undefined\<close> or
  \<open>null\<close>) or throws.
\<close>

record script_prompt =
  prompt_topic :: string
  prompt_minutes :: int
  prompt_seconds :: number
  prompt_targetWords :: int

text \<open>\<open>a % 60\<close>: the remainder has the sign of the dividend.\<close>

definition rem60 :: "number \<Rightarrow> number" where
  "rem60 a = a - 60 * of_int (if 0 \<le> a then \<lfloor>a / 60\<rfloor> else \<lceil>a / 60\<rceil>)"

definition buildScriptPrompt :: "string \<Rightarrow> number \<Rightarrow> int \<Rightarrow> script_prompt" where
  "buildScriptPrompt topic duration targetWords =
     (let minutes = \<lfloor>duration / 60\<rfloor>;
          seconds = rem60 duration
      in \<lparr>prompt_topic = topic, prompt_minutes = minutes, prompt_seconds = seconds,
          prompt_targetWords = targetWords\<rparr>)"
  for topic duration

text \<open>
  Of the \<open>Script\<close> that \<open>parseScriptContent\<close> returns the model keeps the topic and
  the trimmed content; the sections, their estimated durations and the fresh ids are
  computed from the content without any failure and no claim speaks of them.
\<close>

record script =
  script_topic :: string
  script_content :: string

definition parseScriptContent :: "string \<Rightarrow> string \<Rightarrow> number \<Rightarrow> script" where
  "parseScriptContent content topic targetDuration =
     \<lparr>script_topic = topic, script_content = trim content\<rparr>"
  for topic

text \<open>A run of \<open>generateScript\<close>: its outcome and the prompts sent to the collaborator.\<close>

record script_run =
  script_result :: "script outcome"
  requests :: "script_prompt list"

text \<open>The \<open>try\<close> block.\<close>

definition generateScript_try ::
  "(script_prompt \<Rightarrow> string option outcome) \<Rightarrow> string \<Rightarrow> number \<Rightarrow> script_run" where
  "generateScript_try openai topic duration =
     (if topic = [] \<or> length (trim topic) = 0
      then \<lparr>script_result = Throws (App (ValidationError ''Topic is required'')),
            requests = []\<rparr>
      else if duration < 60 \<or> duration > 1800
      then \<lparr>script_result =
              Throws (App (ValidationError ''Duration must be between 60 and 1800 seconds'')),
            requests = []\<rparr>
      else
        (let wordsPerMinute = 150;
             targetWords = \<lfloor>(duration / 60) * wordsPerMinute\<rfloor>;
             prompt = buildScriptPrompt topic duration targetWords
         in case openai prompt of
              Throws e \<Rightarrow> \<lparr>script_result = Throws e, requests = [prompt]\<rparr>
            | Returns scriptContent \<Rightarrow>
                (case scriptContent of
                   None \<Rightarrow>
                     \<lparr>script_result =
                        Throws (App (ExternalServiceError ''OpenAI''
                                       ''No script content generated'' True)),
                      requests = [prompt]\<rparr>
                 | Some content \<Rightarrow>
                     if content = []
                     then \<lparr>script_result =
                             Throws (App (ExternalServiceError ''OpenAI''
                                            ''No script content generated'' True)),
                           requests = [prompt]\<rparr>
                     else \<lparr>script_result = Returns (parseScriptContent content topic duration),
                           requests = [prompt]\<rparr>)))"
  for topic duration

text \<open>
  The \<open>catch\<close> block: a \<open>ValidationError\<close> is rethrown, anything else is wrapped in a
  new \<open>ExternalServiceError\<close>, whose \<open>retryable\<close> is left at its default \<open>true\<close>.
\<close>

definition generateScript_catch :: "thrown \<Rightarrow> thrown" where
  "generateScript_catch e =
     (case e of
        App a \<Rightarrow>
          if error_class a = ValidationErrorC then e
          else App (ExternalServiceError ''OpenAI''
                      (''Script generation failed: '' @ message a) True)
      | OtherError m \<Rightarrow>
          App (ExternalServiceError ''OpenAI'' (''Script generation failed: '' @ m) True)
      | Undefined \<Rightarrow> OtherError ''TypeError: cannot read properties of undefined'')"

definition generateScript ::
  "(script_prompt \<Rightarrow> string option outcome) \<Rightarrow> string \<Rightarrow> number \<Rightarrow> script_run" where
  "generateScript openai topic duration =
     (let r = generateScript_try openai topic duration
      in case script_result r of
           Returns s \<Rightarrow> r
         | Throws e \<Rightarrow> r\<lparr>script_result := Throws (generateScript_catch e)\<rparr>)"
  for topic duration

text \<open>A collaborator that answers without content, and the script stage over it as an
  operation to retry.\<close>

definition silent_openai :: "script_prompt \<Rightarrow> string option outcome" where
  "silent_openai p = Returns None"

definition silent_script_stage :: "nat \<Rightarrow> script outcome" where
  "silent_script_stage k = script_result (generateScript silent_openai ''Daisy care'' 120)"



subsection \<open>Validation and the target word count\<close>

lemma trim_Nil_iff: "(trim s = []) = (\<forall>c\<in>set s. is_whitespace c)"
proof
  assume "trim s = []"
  then have "dropWhile is_whitespace (rev (dropWhile is_whitespace s)) = []"
    by (simp add: trim_def)
  then have "\<forall>c\<in>set (dropWhile is_whitespace s). is_whitespace c"
    by (simp only: dropWhile_eq_Nil_conv set_rev)
  then have "dropWhile is_whitespace s = []"
    by (metis hd_dropWhile hd_in_set)
  then show "\<forall>c\<in>set s. is_whitespace c"
    by (simp only: dropWhile_eq_Nil_conv)
next
  assume "\<forall>c\<in>set s. is_whitespace c"
  then have "dropWhile is_whitespace s = []"
    by (simp only: dropWhile_eq_Nil_conv)
  then show "trim s = []" by (simp add: trim_def del: dropWhile_eq_Nil_conv)
qed







subsection \<open>Empty output of the collaborator\<close>

lemma retry_all_retryable:
  assumes "\<forall>k. \<not> stops (operation k)" and "1 \<le> maxRetries"
  shows "invocations (retryOperation operation maxRetries delay) = nat maxRetries"
proof -
  let ?r = "retryOperation operation maxRetries delay"
  have sh: "retry_shape operation maxRetries delay ?r" by (rule retryOperation_shape)
  then have pos: "0 < invocations ?r"
    using assms(2) by (cases "invocations ?r") (auto simp: retry_shape_def)
  with sh assms(1) have "int (invocations ?r) = maxRetries"
    by (simp add: retry_shape_def)
  then show ?thesis by simp
qed


text \<open>
  Claim C5, as amended. When the collaborator returns empty output (no content, or the
  empty string) for a valid topic and duration, \<open>generateScript\<close> rejects it with an
  \<open>ExternalServiceError\<close> for \<open>OpenAI\<close> whose \<open>retryable\<close> flag is true: the error
  is classified retryable, and \<open>retryOperation\<close> over a stage that keeps failing so
  re-invokes it until the budget is spent.
\<close>

theorem generateScript_empty_output_retryable:
  fixes topic :: string and duration :: number
  assumes "\<not> (\<forall>c\<in>set topic. is_whitespace c)" and "60 \<le> duration" and "duration \<le> 1800"
      and "openai (buildScriptPrompt topic duration \<lfloor>duration / 60 * 150\<rfloor>) = Returns content"
      and "content = None \<or> content = Some []"
  shows "script_result (generateScript openai topic duration)
           = Throws (App (ExternalServiceError ''OpenAI''
               ''Script generation failed: OpenAI error: No script content generated'' True))
       \<and> \<not> non_retryable (App (ExternalServiceError ''OpenAI''
               ''Script generation failed: OpenAI error: No script content generated'' True))
       \<and> (1 \<le> maxRetries \<longrightarrow>
            invocations (retryOperation (\<lambda>k. script_result (generateScript openai topic duration))
                           maxRetries delay) = nat maxRetries)"
proof -
  let ?e = "App (ExternalServiceError ''OpenAI''
               ''Script generation failed: OpenAI error: No script content generated'' True)"
  have named: "\<not> (topic = [] \<or> length (trim topic) = 0)"
    using assms(1) trim_Nil_iff[of topic] by auto
  have r: "script_result (generateScript openai topic duration) = Throws ?e"
    using named assms(2-5)
    by (auto simp: generateScript_def generateScript_try_def generateScript_catch_def
                   ExternalServiceError_def Let_def)
  have nr: "\<not> non_retryable ?e" by (simp add: ExternalServiceError_def)
  have "\<forall>k. \<not> stops ((\<lambda>k. script_result (generateScript openai topic duration)) k)"
    using r nr by (simp add: stops_def)
  then have "1 \<le> maxRetries \<Longrightarrow>
      invocations (retryOperation (\<lambda>k. script_result (generateScript openai topic duration))
                     maxRetries delay) = nat maxRetries"
    by (rule retry_all_retryable)
  with r nr show ?thesis by blast
qed


text \<open>C5 at the collaborator that never returns content, for the topic ``Daisy care'' and 120 s.\<close>

theorem generateScript_empty_output_retryable_witness:
  "trim ''Daisy care'' = ''Daisy care'' \<and> (60::rat) \<le> 120 \<and> (120::rat) \<le> 1800
   \<and> silent_openai (buildScriptPrompt ''Daisy care'' 120 \<lfloor>120 / 60 * 150\<rfloor>) = Returns None
   \<and> script_result (generateScript silent_openai ''Daisy care'' 120)
        = Throws (App (ExternalServiceError ''OpenAI''
               ''Script generation failed: OpenAI error: No script content generated'' True))
   \<and> invocations (retryOperation (\<lambda>k. script_result (generateScript silent_openai ''Daisy care'' 120))
                     3 1000) = nat 3"
proof -
  have named: "\<not> (\<forall>c\<in>set ''Daisy care''. is_whitespace c)"
    by (simp add: is_whitespace_def)
  have lower: "(60::rat) \<le> 120" and upper: "(120::rat) \<le> 1800"
    by simp_all
  have silent: "silent_openai (buildScriptPrompt ''Daisy care'' 120 \<lfloor>120 / 60 * 150\<rfloor>) = Returns None"
    by (simp add: silent_openai_def)
  have empty: "(None :: string option) = None \<or> (None :: string option) = Some []"
    by simp
  have budget: "(1::int) \<le> 3"
    by simp
  note stage = generateScript_empty_output_retryable
                 [where topic = "''Daisy care''" and duration = 120 and openai = silent_openai
                    and content = None and maxRetries = 3 and delay = 1000,
                  OF named lower upper silent empty]
  have "trim ''Daisy care'' = ''Daisy care''"
    by (simp add: trim_def is_whitespace_def)
  with stage budget lower upper silent show ?thesis
    by blast
qed


text \<open>
  Claim C5 as stated fails: for that collaborator the error of the script stage is
  retryable, and \<open>retryOperation\<close> with a budget of 3 invokes the stage three times.
\<close>

theorem generateScript_empty_output_counterexample:
  "silent_openai (buildScriptPrompt ''Daisy care'' 120 300) = Returns None
   \<and> silent_script_stage 0
        = Throws (App (ExternalServiceError ''OpenAI''
               ''Script generation failed: OpenAI error: No script content generated'' True))
   \<and> \<not> non_retryable (App (ExternalServiceError ''OpenAI''
               ''Script generation failed: OpenAI error: No script content generated'' True))
   \<and> invocations (retryOperation silent_script_stage 3 1000) = 3"
  by code_simp



section \<open>Finding visual content (VisualContentService.findVisualContent)\<close>

subsection \<open>The search collaborators\<close>

text \<open>
  The two HTTP searches are parameters. A request either fails (\<open>axios.get\<close> throws, or
  the response has not the expected shape) or returns its results: for Unsplash the
  \<open>urls.regular\<close> of each image, for Pexels the \<open>duration\<close> of each video (\<open>None\<close>
  when the field is missing) and the \<open>quality\<close> and \<open>link\<close> of each of its files.
  The arguments are the \<open>query\<close> and \<open>per_page\<close> parameters of the request.
\<close>

datatype unsplash_response = UnsplashFails | UnsplashResults "string list"

record pexels_video =
  native_duration :: "number option"
  video_files :: "(string \<times> string) list"

datatype pexels_response = PexelsFails | PexelsResults "pexels_video list"

record services =
  unsplashAccessKey :: string
  pexelsApiKey :: string
  unsplash_search :: "string \<Rightarrow> int \<Rightarrow> unsplash_response"
  pexels_search :: "string \<Rightarrow> int \<Rightarrow> pexels_response"

subsection \<open>Strings again\<close>

definition to_lower :: "char \<Rightarrow> char" where
  "to_lower c =
     (let n = (of_char c :: nat) in if 65 \<le> n \<and> n \<le> 90 then char_of (n + 32) else c)"

text \<open>The regular expression \<open>\w\<close>: a letter, a digit or the underscore.\<close>

definition word_char :: "char \<Rightarrow> bool" where
  "word_char c =
     (let n = (of_char c :: nat)
      in (48 \<le> n \<and> n \<le> 57) \<or> (65 \<le> n \<and> n \<le> 90) \<or> (97 \<le> n \<and> n \<le> 122) \<or> n = 95)"

text \<open>\<open>keywords.join(' ')\<close>\<close>

fun join_space :: "string list \<Rightarrow> string" where
  "join_space [] = []"
| "join_space [w] = w"
| "join_space (w # ws) = w @ '' '' @ join_space ws"

text \<open>
  \<open>encodeURIComponent\<close> on ASCII text: letters, digits and \<open>- _ . ! ~ * ' ( )\<close> stay,
  every other character becomes \<open>%\<close> and its code in two upper-case hexadecimal digits.
\<close>

definition hex_digit :: "nat \<Rightarrow> char" where
  "hex_digit n = ''0123456789ABCDEF'' ! (n mod 16)"

definition uri_unreserved :: "char \<Rightarrow> bool" where
  "uri_unreserved c =
     (let n = (of_char c :: nat)
      in (48 \<le> n \<and> n \<le> 57) \<or> (65 \<le> n \<and> n \<le> 90) \<or> (97 \<le> n \<and> n \<le> 122)
         \<or> n = 45 \<or> n = 95 \<or> n = 46 \<or> n = 33 \<or> n = 126 \<or> n = 42 \<or> n = 39 \<or> n = 40 \<or> n = 41)"

definition encodeURIComponent :: "string \<Rightarrow> string" where
  "encodeURIComponent s =
     concat (map (\<lambda>c. if uri_unreserved c then [c]
                        else [CHR ''%'', hex_digit (of_char c div 16), hex_digit (of_char c)]) s)"

subsection \<open>extractKeywords\<close>

definition stopWords :: "string list" where
  "stopWords =
     [''the'', ''a'', ''an'', ''and'', ''or'', ''but'', ''in'', ''on'', ''at'', ''to'', ''for'',
      ''of'', ''with'', ''by'', ''how'', ''what'', ''why'', ''when'', ''where'', ''who'',
      ''which'', ''that'', ''this'', ''these'', ''those'', ''is'', ''are'', ''was'', ''were'',
      ''be'', ''been'', ''being'', ''have'', ''has'', ''had'', ''do'', ''does'', ''did'']"

text \<open>\<open>[...new Set(words)]\<close>: the first occurrence of every word, in order.\<close>

definition unique_words :: "string list \<Rightarrow> string list" where
  "unique_words ws = rev (remdups (rev ws))"

definition extractKeywords :: "string \<Rightarrow> string list" where
  "extractKeywords topic =
     (let lowered = map to_lower topic;
          spaced = map (\<lambda>c. if word_char c \<or> is_whitespace c then c else CHR '' '') lowered;
          words = filter (\<lambda>word. length word > 2 \<and> word \<notin> set stopWords)
                    (split_on_runs is_whitespace [] spaced)
      in take 5 (unique_words words))"
  for topic

subsection \<open>The searches\<close>

definition placeholder_url :: "string \<Rightarrow> string" where
  "placeholder_url keyword =
     ''https://via.placeholder.com/1920x1080/4A90E2/FFFFFF?text='' @ encodeURIComponent keyword"

text \<open>\<open>keywords[i % keywords.length] || 'placeholder'\<close>\<close>

definition placeholder_keyword :: "string list \<Rightarrow> nat \<Rightarrow> string" where
  "placeholder_keyword keywords i =
     (if keywords = [] then ''placeholder''
      else (let keyword = keywords ! (i mod length keywords)
            in if keyword = [] then ''placeholder'' else keyword))"

definition generatePlaceholderImages :: "string list \<Rightarrow> int \<Rightarrow> VisualContent list" where
  "generatePlaceholderImages keywords count =
     map (\<lambda>i. \<lparr>vtype = Image, source = placeholder_url (placeholder_keyword keywords i),
               duration = 5, startTime = 0,
               url = Some (placeholder_url (placeholder_keyword keywords i))\<rparr>)
         [0..<nat count]"

definition searchUnsplashImages :: "services \<Rightarrow> string list \<Rightarrow> int \<Rightarrow> VisualContent list" where
  "searchUnsplashImages env keywords count =
     (if unsplashAccessKey env = [] then generatePlaceholderImages keywords count
      else
        (case unsplash_search env (join_space keywords) (min count 30) of
           UnsplashFails \<Rightarrow> generatePlaceholderImages keywords count
         | UnsplashResults images \<Rightarrow>
             map (\<lambda>regular. \<lparr>vtype = Image, source = regular, duration = 5, startTime = 0,
                             url = Some regular\<rparr>) images))"

text \<open>
  \<open>video.video_files.find(...) || video.video_files[0]\<close>; \<open>None\<close> when the video has no
  file, where reading \<open>videoFile.link\<close> throws.
\<close>

definition pick_video_file :: "(string \<times> string) list \<Rightarrow> (string \<times> string) option" where
  "pick_video_file files =
     (case find (\<lambda>file. fst file = ''hd'' \<or> fst file = ''sd'') files of
        Some file \<Rightarrow> Some file
      | None \<Rightarrow> (case files of [] \<Rightarrow> None | file # rest \<Rightarrow> Some file))"

text \<open>\<open>video.duration || 10\<close>: a missing duration and the duration 0 give 10.\<close>

definition duration_or_10 :: "pexels_video \<Rightarrow> number" where
  "duration_or_10 video =
     (case native_duration video of None \<Rightarrow> 10 | Some d \<Rightarrow> if d = 0 then 10 else d)"

definition video_asset :: "pexels_video \<Rightarrow> VisualContent option" where
  "video_asset video =
     (case pick_video_file (video_files video) of
        None \<Rightarrow> None
      | Some videoFile \<Rightarrow>
          Some \<lparr>vtype = Video, source = snd videoFile,
                duration = min (duration_or_10 video) 15, startTime = 0,
                url = Some (snd videoFile)\<rparr>)"

text \<open>An exception anywhere in the mapping is caught and the search returns \<open>[]\<close>.\<close>

definition searchPexelsVideos :: "services \<Rightarrow> string list \<Rightarrow> int \<Rightarrow> VisualContent list" where
  "searchPexelsVideos env keywords count =
     (if pexelsApiKey env = [] then []
      else
        (case pexels_search env (join_space keywords) (min count 15) of
           PexelsFails \<Rightarrow> []
         | PexelsResults videos \<Rightarrow>
             (case those (map video_asset videos) of
                None \<Rightarrow> []
              | Some assets \<Rightarrow> assets)))"

subsection \<open>findVisualContent\<close>

text \<open>The candidates that the \<open>try\<close> block collects in \<open>visualContent\<close> for a valid request.\<close>

definition collectVisuals :: "services \<Rightarrow> string \<Rightarrow> number \<Rightarrow> VisualContent list" where
  "collectVisuals env topic duration =
     (let averageImageDuration = 5;
          neededVisuals = \<lceil>duration / averageImageDuration\<rceil>;
          keywords = extractKeywords topic;
          unsplashImages = searchUnsplashImages env keywords \<lceil>of_int neededVisuals * (7 / 10 :: rat)\<rceil>;
          visualContent = unsplashImages;
          visualContent =
            (if pexelsApiKey env \<noteq> []
             then visualContent
                    @ searchPexelsVideos env keywords \<lceil>of_int neededVisuals * (3 / 10 :: rat)\<rceil>
             else visualContent);
          visualContent =
            (if int (length visualContent) < neededVisuals
             then visualContent
                    @ searchUnsplashImages env [topic] (neededVisuals - int (length visualContent))
             else visualContent)
      in visualContent)"
  for topic duration




text \<open>Three configurations: Unsplash answers every query with no image; no API key at all;
  Pexels answers with one video of duration 0.\<close>

definition no_images :: "string \<Rightarrow> int \<Rightarrow> unsplash_response" where
  "no_images query per_page = UnsplashResults []"

definition no_videos :: "string \<Rightarrow> int \<Rightarrow> pexels_response" where
  "no_videos query per_page = PexelsResults []"

definition one_still_video :: "string \<Rightarrow> int \<Rightarrow> pexels_response" where
  "one_still_video query per_page =
     PexelsResults [\<lparr>native_duration = Some 0,
                     video_files = [(''hd'', ''https://videos.example/still.mp4'')]\<rparr>]"


definition offline :: services where
  "offline = \<lparr>unsplashAccessKey = [], pexelsApiKey = [],
              unsplash_search = no_images, pexels_search = no_videos\<rparr>"

definition stills :: services where
  "stills = \<lparr>unsplashAccessKey = ''key'', pexelsApiKey = ''key'',
             unsplash_search = no_images, pexels_search = one_still_video\<rparr>"


subsection \<open>Nominal durations of the candidates\<close>

lemma those_map_all2:
  "those (map f xs) = Some ys \<Longrightarrow> list_all2 (\<lambda>x y. f x = Some y) xs ys"
proof (induction xs arbitrary: ys)
  case Nil
  then show ?case by simp
next
  case (Cons x xs)
  then show ?case by (auto split: option.splits)
qed

lemma video_asset_Some:
  "video_asset video = Some v \<Longrightarrow>
   vtype v = Video \<and> duration v = min (duration_or_10 video) 15"
  by (auto simp: video_asset_def split: option.splits)

lemma pexels_assets:
  assumes "those (map video_asset videos) = Some assets"
  shows "map vtype assets = map (\<lambda>video. Video) videos
       \<and> map duration assets = map (\<lambda>video. min (duration_or_10 video) 15) videos"
proof -
  from assms have "list_all2 (\<lambda>video v. video_asset video = Some v) videos assets"
    by (rule those_map_all2)
  then show ?thesis
    by (induction videos assets rule: list_all2_induct) (auto dest: video_asset_Some)
qed

lemma searchPexelsVideos_cases:
  "searchPexelsVideos env keywords n = []
   \<or> (\<exists>videos. pexels_search env (join_space keywords) (min n 15) = PexelsResults videos
         \<and> map vtype (searchPexelsVideos env keywords n) = map (\<lambda>video. Video) videos
         \<and> map duration (searchPexelsVideos env keywords n)
             = map (\<lambda>video. min (duration_or_10 video) 15) videos)"
  using pexels_assets
  by (auto simp: searchPexelsVideos_def split: pexels_response.splits option.splits)

lemma placeholder_images:
  "\<forall>v\<in>set (generatePlaceholderImages keywords n). vtype v = Image \<and> duration v = 5"
  by (auto simp: generatePlaceholderImages_def)

lemma unsplash_images:
  "\<forall>v\<in>set (searchUnsplashImages env keywords n). vtype v = Image \<and> duration v = 5"
  using placeholder_images[of "keywords" n]
  by (auto simp: searchUnsplashImages_def split: unsplash_response.splits)

lemma pexels_videos:
  "\<forall>v\<in>set (searchPexelsVideos env keywords n).
     vtype v = Video \<and> (\<exists>video. duration v = min (duration_or_10 video) 15)"
proof
  fix v assume v: "v \<in> set (searchPexelsVideos env keywords n)"
  then obtain i where i: "i < length (searchPexelsVideos env keywords n)"
      and vi: "v = searchPexelsVideos env keywords n ! i"
    by (metis in_set_conv_nth)
  from v have "searchPexelsVideos env keywords n \<noteq> []" by auto
  with searchPexelsVideos_cases[of env "keywords" n] obtain videos where
      t: "map vtype (searchPexelsVideos env keywords n) = map (\<lambda>video. Video) videos"
    and d: "map duration (searchPexelsVideos env keywords n)
             = map (\<lambda>video. min (duration_or_10 video) 15) videos"
    by blast
  from t have len: "length (searchPexelsVideos env keywords n) = length videos"
    by (metis length_map)
  from t i len have "vtype v = Video"
    unfolding vi by (metis nth_map)
  moreover from d i len have "duration v = min (duration_or_10 (videos ! i)) 15"
    unfolding vi by (metis nth_map)
  ultimately show "vtype v = Video \<and> (\<exists>video. duration v = min (duration_or_10 video) 15)"
    by blast
qed

lemma collectVisuals_nominal:
  fixes topic :: string and seconds :: number
  shows "\<forall>v\<in>set (collectVisuals env topic seconds).
           (vtype v = Image \<and> duration v = 5)
         \<or> (vtype v = Video \<and> (\<exists>video. duration v = min (duration_or_10 video) 15))"
  using unsplash_images pexels_videos
  by (auto simp: collectVisuals_def Let_def)



text \<open>
  Claim C8, as amended. Every image that the visual stage produces (from Unsplash or as a
  placeholder) has the nominal duration of 5 seconds. The videos of a Pexels search are,
  in the order of the response, of duration \<open>min d 15\<close>, where \<open>d\<close> is the video's native
  duration when that is present and not zero, and 10 otherwise. So every candidate
  of \<open>findVisualContent\<close> is an image of 5 seconds or a video of at most 15 seconds.
\<close>

theorem nominal_slice_durations:
  fixes topic :: string and seconds :: number
  shows "(\<forall>v\<in>set (searchUnsplashImages env query_words n). vtype v = Image \<and> duration v = 5)
    \<and> (searchPexelsVideos env query_words n = []
        \<or> (\<exists>videos. pexels_search env (join_space query_words) (min n 15) = PexelsResults videos
              \<and> map vtype (searchPexelsVideos env query_words n) = map (\<lambda>video. Video) videos
              \<and> map duration (searchPexelsVideos env query_words n)
                  = map (\<lambda>video. min (case native_duration video of
                                         None \<Rightarrow> 10
                                       | Some d \<Rightarrow> if d = 0 then 10 else d) 15) videos))
    \<and> (\<forall>v\<in>set (collectVisuals env topic seconds).
          (vtype v = Image \<and> duration v = 5) \<or> (vtype v = Video \<and> duration v \<le> 15))"
proof -
  have "\<forall>v\<in>set (collectVisuals env topic seconds).
          (vtype v = Image \<and> duration v = 5) \<or> (vtype v = Video \<and> duration v \<le> 15)"
    using collectVisuals_nominal[of env topic seconds] by fastforce
  then show ?thesis
    using unsplash_images[of env query_words n] searchPexelsVideos_cases[of env query_words n]
    unfolding duration_or_10_def by blast
qed


text \<open>C8 without API keys (placeholder images) and with one Pexels video of duration 0.\<close>

theorem nominal_slice_durations_witness:
  "map duration (searchUnsplashImages offline [''daisy''] 2) = [5, 5]
   \<and> pexels_search stills (join_space [''daisy'']) (min 2 15)
        = PexelsResults [\<lparr>native_duration = Some 0,
                          video_files = [(''hd'', ''https://videos.example/still.mp4'')]\<rparr>]
   \<and> map duration (searchPexelsVideos stills [''daisy''] 2) = [10]
   \<and> map vtype (collectVisuals stills ''Daisy care'' 30) = [Video]
   \<and> map duration (collectVisuals stills ''Daisy care'' 30) = [10]"
proof -
  have images: "length (searchUnsplashImages offline [''daisy''] 2) = 2"
    by code_simp
  have request: "pexels_search stills (join_space [''daisy'']) (min 2 15)
        = PexelsResults [\<lparr>native_duration = Some 0,
                          video_files = [(''hd'', ''https://videos.example/still.mp4'')]\<rparr>]"
    by (simp add: stills_def one_still_video_def)
  have found: "length (searchPexelsVideos stills [''daisy''] 2) = 1"
    by code_simp
  have kinds: "map vtype (collectVisuals stills ''Daisy care'' 30) = [Video]"
    by code_simp
  note nominal = nominal_slice_durations
                   [where env = offline and query_words = "[''daisy'']" and n = 2
                      and topic = "''Daisy care''" and seconds = 30]
                 nominal_slice_durations
                   [where env = stills and query_words = "[''daisy'']" and n = 2
                      and topic = "''Daisy care''" and seconds = 30]
  have a: "map duration (searchUnsplashImages offline [''daisy''] 2) = [5, 5]"
  proof -
    from nominal(1) have "\<forall>v\<in>set (searchUnsplashImages offline [''daisy''] 2). duration v = 5"
      by blast
    with images show ?thesis
      by (cases "searchUnsplashImages offline [''daisy''] 2" rule: list.exhaust;
          simp add: length_Suc_conv; auto simp: numeral_2_eq_2 length_Suc_conv)
  qed
  have b: "map duration (searchPexelsVideos stills [''daisy''] 2) = [10]"
    using nominal(2) request found by auto
  have c: "map duration (collectVisuals stills ''Daisy care'' 30) = [10]"
    by code_simp
  from a b c request kinds show ?thesis by simp
qed


text \<open>
  Claim C8 as stated fails: a video of native duration 0 gets 10 seconds, and not
  \<open>min 0 15\<close>.
\<close>

theorem nominal_slice_durations_counterexample:
  "one_still_video ''daisy'' 2
     = PexelsResults [\<lparr>native_duration = Some 0,
                       video_files = [(''hd'', ''https://videos.example/still.mp4'')]\<rparr>]
   \<and> searchPexelsVideos stills [''daisy''] 2
     = [\<lparr>vtype = Video, source = ''https://videos.example/still.mp4'', duration = 10,
         startTime = 0, url = Some ''https://videos.example/still.mp4''\<rparr>]
   \<and> (10::rat) \<noteq> min 0 15"
  by code_simp


subsection \<open>No candidates\<close>







end
